theory Spec2Isabelle
  imports Complex_Main "HOL-Library.Multiset" "HOL-Library.Product_Lexorder"
begin

section \<open>Data model\<close>

text \<open>
  The composite index application (\<^verbatim>\<open>app.py\<close>, \<^verbatim>\<open>db.py\<close>) works on pandas data frames that
  hold a time series: the two columns \<^verbatim>\<open>observation_date\<close> and \<^verbatim>\<open>adjusted_index_value\<close>
  selected by \<^verbatim>\<open>fetch_timeseries_data\<close>.

  \<^item> An observation date is a calendar date (year, month, day), ordered lexicographically,
    which is the chronological order.
  \<^item> An index value is a number. The arithmetic of the program (\<open>*\<close>, \<open>/\<close>, the sum of a
    group) is taken exactly, over the reals: rounding of double-precision floats, NaN and
    missing (NULL) cells are outside this model.
  \<^item> A two-column frame is the list of its rows, in row order.
\<close>

type_synonym date = "int \<times> int \<times> int"

type_synonym timeseries = "(date \<times> real) list"

text \<open>
  Frames are objects: \<^verbatim>\<open>process_data\<close> assigns to columns of a fetched frame in place and
  hands the frames it built to \<^verbatim>\<open>generate_plot\<close> by reference. The store holds the
  two-column frames in allocation order; a reference is the position of its frame.
  The frame \<^verbatim>\<open>pd.DataFrame()\<close> has no columns and no rows, and nothing is ever written to it:
  it is the value \<open>Empty_DataFrame\<close>.
\<close>

type_synonym ref = nat

datatype dataframe = Empty_DataFrame | Frame ref

datatype error =
    DatabaseError string
  | KeyError string
  | IndexError

text \<open>A selection is the tuple \<^verbatim>\<open>(category_2, category_3, weight)\<close> built by
  \<^verbatim>\<open>gather_user_inputs\<close>; \<^verbatim>\<open>category_3\<close> is optional (\<^verbatim>\<open>None\<close>) for the repository.\<close>

type_synonym selection = "string \<times> string option \<times> real"

text \<open>
  The data warehouse is outside the program. A query of \<^verbatim>\<open>db.py\<close> with its parameters either
  raises (the connection or the query fails) or returns its rows:
  \<^item> \<open>ppi_series_details c2 c3\<close>: the \<^verbatim>\<open>series_id\<close> column of
    \<^verbatim>\<open>SELECT series_id FROM marts.ppi_series_details WHERE category_2 = c2 [AND category_3 = c3]\<close>;
  \<^item> \<open>ppi_adjusted_2020 s\<close>: the rows of
    \<^verbatim>\<open>SELECT observation_date, adjusted_index_value FROM marts.ppi_adjusted_2020 WHERE series_id = s\<close>.
\<close>

record bigquery =
  ppi_series_details :: "string \<Rightarrow> string option \<Rightarrow> error + string list"
  ppi_adjusted_2020 :: "string \<Rightarrow> error + timeseries"

datatype query =
    Series_Details string "string option"
  | Adjusted_2020 string

text \<open>The world a computation runs in: the store of frames and the queries sent to the
  warehouse so far, oldest first.\<close>

record world =
  frames :: "timeseries list"
  issued :: "query list"

section \<open>The repository: \<^verbatim>\<open>db.py\<close>\<close>

text \<open>Python's truth value of \<^verbatim>\<open>category_3\<close>: \<^verbatim>\<open>None\<close> and the empty string are false.\<close>

definition truthy :: "string option \<Rightarrow> bool" where
  "truthy s = (case s of None \<Rightarrow> False | Some t \<Rightarrow> t \<noteq> [])"

definition fetch_series_data ::
  "bigquery \<Rightarrow> string \<Rightarrow> string option \<Rightarrow> world \<Rightarrow> (error + string list) \<times> world" where
  "fetch_series_data db category_2 category_3 w =
     (let params = (if truthy category_3 then category_3 else None)
      in (ppi_series_details db category_2 params,
          w\<lparr>issued := issued w @ [Series_Details category_2 params]\<rparr>))"

text \<open>\<^verbatim>\<open>fetch_timeseries_data(series_id)\<close> takes the list of identifiers and queries
  \<^verbatim>\<open>series_id[0]\<close>; the frame read is a new object.\<close>

definition fetch_timeseries_data ::
  "bigquery \<Rightarrow> string list \<Rightarrow> world \<Rightarrow> (error + ref) \<times> world" where
  "fetch_timeseries_data db series_id w =
     (case series_id of
        [] \<Rightarrow> (Inl IndexError, w)
      | first # _ \<Rightarrow>
          (case ppi_adjusted_2020 db first of
             Inl e \<Rightarrow> (Inl e, w\<lparr>issued := issued w @ [Adjusted_2020 first]\<rparr>)
           | Inr rows \<Rightarrow>
               (Inr (length (frames w)),
                \<lparr>frames = frames w @ [rows], issued = issued w @ [Adjusted_2020 first]\<rparr>)))"

section \<open>Frame operations used by \<^verbatim>\<open>app.py\<close>\<close>

definition observation_date :: "timeseries \<Rightarrow> date list" where
  "observation_date rows = map fst rows"

definition adjusted_index_value :: "timeseries \<Rightarrow> real list" where
  "adjusted_index_value rows = map snd rows"

text \<open>\<^verbatim>\<open>pd.to_datetime\<close> converts the dates read from the warehouse to timestamps at midnight:
  the same calendar dates.\<close>

definition to_datetime :: "date list \<Rightarrow> date list" where
  "to_datetime ds = ds"

text \<open>Assignment to a column, \<^verbatim>\<open>df[col] = values\<close>, writes into the frame object.\<close>

definition set_observation_date :: "ref \<Rightarrow> date list \<Rightarrow> world \<Rightarrow> world" where
  "set_observation_date r ds w =
     w\<lparr>frames := (frames w)[r := zip ds (adjusted_index_value (frames w ! r))]\<rparr>"

definition set_adjusted_index_value :: "ref \<Rightarrow> real list \<Rightarrow> world \<Rightarrow> world" where
  "set_adjusted_index_value r vs w =
     w\<lparr>frames := (frames w)[r := zip (observation_date (frames w ! r)) vs]\<rparr>"

text \<open>\<^verbatim>\<open>sort_values(by='observation_date')\<close> returns the rows in ascending date order as a
  new frame. Rows with equal dates keep their order here; pandas' default sort does not
  promise that, so the theorems below say of a sorted individual series only that its dates
  ascend and that it has the same rows as the frame it was sorted from.\<close>

definition sort_values :: "timeseries \<Rightarrow> timeseries" where
  "sort_values rows = sort_key fst rows"

text \<open>A frame computed by pandas (\<^verbatim>\<open>copy\<close>, \<^verbatim>\<open>concat\<close>, \<^verbatim>\<open>df[mask]\<close>, \<^verbatim>\<open>reset_index\<close>
  \<open>\<dots>\<close>) that the program keeps is a new object of the store.\<close>

definition new_frame :: "timeseries \<Rightarrow> world \<Rightarrow> ref \<times> world" where
  "new_frame rows w = (length (frames w), w\<lparr>frames := frames w @ [rows]\<rparr>)"

text \<open>\<^verbatim>\<open>groupby('observation_date').sum().reset_index()\<close>: one row per distinct date, in
  ascending date order, holding the sum of the values of the rows with that date.\<close>

definition groupby_sum :: "timeseries \<Rightarrow> timeseries" where
  "groupby_sum rows =
     map (\<lambda>d. (d, sum_list (map snd (filter (\<lambda>row. fst row = d) rows))))
         (sort (remdups (map fst rows)))"

text \<open>The f-string \<^verbatim>\<open>f"{selection[1]}"\<close>.\<close>

definition format_str :: "string option \<Rightarrow> string" where
  "format_str s = (case s of None \<Rightarrow> ''None'' | Some t \<Rightarrow> t)"

section \<open>\<^verbatim>\<open>StreamlitApp.process_data\<close>\<close>

record locals =
  individual_indexes :: "ref list"
  index_categories :: "string list"
  index_ids :: "string list"
  weighted_dataframes :: "ref list"

text \<open>The loop over the selections (lines 105 to 121). A call of the repository that raises
  ends the computation: nothing in \<^verbatim>\<open>process_data\<close> catches it.\<close>

fun process_loop ::
  "bigquery \<Rightarrow> selection list \<Rightarrow> locals \<Rightarrow> world \<Rightarrow> (error + locals) \<times> world" where
  "process_loop db [] st w = (Inr st, w)"
| "process_loop db (selection # rest) st w =
     (case fetch_series_data db (fst selection) (fst (snd selection)) w of
        (Inl e, w1) \<Rightarrow> (Inl e, w1)
      | (Inr series_id, w1) \<Rightarrow>
          if series_id \<noteq> [] then
            (case fetch_timeseries_data db series_id w1 of
               (Inl e, w2) \<Rightarrow> (Inl e, w2)
             | (Inr timeseries_data, w2) \<Rightarrow>
                 let w3 = set_observation_date timeseries_data
                            (to_datetime (observation_date (frames w2 ! timeseries_data))) w2;
                     (unweighted, w4) = new_frame (sort_values (frames w3 ! timeseries_data)) w3;
                     st1 = st\<lparr>individual_indexes := individual_indexes st @ [unweighted]\<rparr>;
                     st2 = st1\<lparr>index_ids := index_ids st1 @ [hd series_id]\<rparr>;
                     st3 = st2\<lparr>index_categories :=
                                 index_categories st2 @ [format_str (fst (snd selection))]\<rparr>;
                     w5 = set_adjusted_index_value timeseries_data
                            (map (\<lambda>v. v * (snd (snd selection) / 100))
                                 (adjusted_index_value (frames w4 ! timeseries_data))) w4;
                     st4 = st3\<lparr>weighted_dataframes := weighted_dataframes st3 @ [timeseries_data]\<rparr>
                 in process_loop db rest st4 w5)
          else process_loop db rest st w1)"

text \<open>The aggregation (lines 124 to 128).\<close>

definition aggregate :: "ref list \<Rightarrow> world \<Rightarrow> dataframe \<times> world" where
  "aggregate weighted w =
     (if weighted \<noteq> [] then
        (let concatenated = concat (map (\<lambda>r. frames w ! r) weighted);
             aggregated_index = sort_values (groupby_sum concatenated);
             (r, w1) = new_frame aggregated_index w
         in (Frame r, w1))
      else (Empty_DataFrame, w))"

definition process_data ::
  "bigquery \<Rightarrow> selection list \<Rightarrow> world \<Rightarrow>
     (error + dataframe \<times> ref list \<times> string list \<times> string list) \<times> world" where
  "process_data db selections w =
     (case process_loop db selections
             \<lparr>individual_indexes = [], index_categories = [], index_ids = [],
              weighted_dataframes = []\<rparr> w of
        (Inl e, w1) \<Rightarrow> (Inl e, w1)
      | (Inr st, w1) \<Rightarrow>
          (let (aggregated_index, w2) = aggregate (weighted_dataframes st) w1
           in (Inr (aggregated_index, individual_indexes st, index_categories st, index_ids st),
               w2)))"

section \<open>\<^verbatim>\<open>PlotManager.generate_plot\<close>\<close>

text \<open>A trace of the figure: the \<^verbatim>\<open>go.Scatter\<close> of line 26 or 34 with its arguments
  \<^verbatim>\<open>x\<close>, \<^verbatim>\<open>y\<close> and \<^verbatim>\<open>name\<close>, in this order.\<close>

datatype scatter = Scatter "date list" "real list" string

type_synonym figure = "scatter list"

text \<open>\<^verbatim>\<open>Series.max()\<close> of a date column: \<^verbatim>\<open>NaT\<close> (\<open>None\<close>) when the column has no rows.\<close>

fun series_max :: "date list \<Rightarrow> date option" where
  "series_max [] = None"
| "series_max (d # ds) = Some (fold max ds d)"

definition is_leap :: "int \<Rightarrow> bool" where
  "is_leap yr = (yr mod 4 = 0 \<and> (yr mod 100 \<noteq> 0 \<or> yr mod 400 = 0))"

definition days_in_month :: "int \<Rightarrow> int \<Rightarrow> int" where
  "days_in_month yr m =
     (if m = 2 then (if is_leap yr then 29 else 28)
      else if m = 4 \<or> m = 6 \<or> m = 9 \<or> m = 11 then 30 else 31)"

text \<open>\<^verbatim>\<open>t - pd.DateOffset(years=n)\<close>: the same month and day \<open>n\<close> calendar years earlier, the
  day clipped to the length of that month (29 February becomes 28 February).
  \<^verbatim>\<open>NaT\<close> stays \<^verbatim>\<open>NaT\<close>.\<close>

fun minus_years :: "date \<Rightarrow> int \<Rightarrow> date" where
  "minus_years (yr, m, d) n = (yr - n, m, min d (days_in_month (yr - n) m))"

text \<open>The mask \<^verbatim>\<open>df['observation_date'] >= start_date\<close>; a comparison with \<^verbatim>\<open>NaT\<close> is false.\<close>

definition on_or_after :: "date option \<Rightarrow> date \<times> real \<Rightarrow> bool" where
  "on_or_after start_date row = (case start_date of None \<Rightarrow> False | Some s \<Rightarrow> s \<le> fst row)"

text \<open>The loop of lines 32 to 39: \<^verbatim>\<open>idx_data = idx_data[mask]\<close> binds the loop variable to a
  new frame.\<close>

fun individual_traces ::
  "date option \<Rightarrow> (ref \<times> string) list \<Rightarrow> figure \<Rightarrow> world \<Rightarrow> figure \<times> world" where
  "individual_traces start_date [] fig w = (fig, w)"
| "individual_traces start_date ((idx_data, label) # rest) fig w =
     (let (idx_data', w1) = new_frame (filter (on_or_after start_date) (frames w ! idx_data)) w;
          fig1 = fig @ [Scatter (observation_date (frames w1 ! idx_data'))
                                (adjusted_index_value (frames w1 ! idx_data'))
                                label]
      in individual_traces start_date rest fig1 w1)"

definition generate_plot ::
  "dataframe \<Rightarrow> ref list \<Rightarrow> string list \<Rightarrow> world \<Rightarrow> (error + figure) \<times> world" where
  "generate_plot aggregated_index individuals categories w =
     (case aggregated_index of
        Empty_DataFrame \<Rightarrow> (Inl (KeyError ''observation_date''), w)
      | Frame agg \<Rightarrow>
          (let last_date = series_max (observation_date (frames w ! agg));
               start_date = map_option (\<lambda>t. minus_years t 5) last_date;
               (filtered_data, w1) =
                  new_frame (filter (on_or_after start_date) (frames w ! agg)) w;
               fig = [Scatter (observation_date (frames w1 ! filtered_data))
                              (adjusted_index_value (frames w1 ! filtered_data))
                              ''Composite Index''];
               (fig1, w2) = individual_traces start_date
                              (zip individuals categories) fig w1
           in (Inr fig1, w2)))"

text \<open>The part of \<^verbatim>\<open>run\<close> after the Submit button that computes (lines 163 and 167):
  the outputs of \<^verbatim>\<open>process_data\<close> go to \<^verbatim>\<open>generate_plot\<close> as they are.\<close>

definition submit :: "bigquery \<Rightarrow> selection list \<Rightarrow> world \<Rightarrow> (error + figure) \<times> world" where
  "submit db selections w =
     (case process_data db selections w of
        (Inl e, w1) \<Rightarrow> (Inl e, w1)
      | (Inr (aggregated_index, individuals, categories, ids), w1) \<Rightarrow>
          generate_plot aggregated_index individuals categories w1)"

section \<open>Notions of the specification\<close>

text \<open>What resolving a selection returns: the answer of the warehouse to the query that
  \<^verbatim>\<open>fetch_series_data\<close> sends for it.\<close>

definition resolution :: "bigquery \<Rightarrow> selection \<Rightarrow> error + string list" where
  "resolution db sel =
     ppi_series_details db (fst sel)
       (if truthy (fst (snd sel)) then fst (snd sel) else None)"

text \<open>A surviving pair: a selection whose resolution returned at least one identifier, with the
  first identifier and the time series the warehouse holds for it. The survivors of a
  selection set are listed in the order of the selections.\<close>

definition survivor :: "bigquery \<Rightarrow> selection \<Rightarrow> (selection \<times> string \<times> timeseries) option" where
  "survivor db sel =
     (case resolution db sel of
        Inr (s # _) \<Rightarrow>
          (case ppi_adjusted_2020 db s of Inr rows \<Rightarrow> Some (sel, s, rows) | Inl _ \<Rightarrow> None)
      | _ \<Rightarrow> None)"

definition survivors :: "bigquery \<Rightarrow> selection list \<Rightarrow> (selection \<times> string \<times> timeseries) list" where
  "survivors db sels = List.map_filter (survivor db) sels"

text \<open>Every call of the repository made for the selection returns (none raises).\<close>

definition answered :: "bigquery \<Rightarrow> selection \<Rightarrow> bool" where
  "answered db sel =
     (case resolution db sel of
        Inl _ \<Rightarrow> False
      | Inr [] \<Rightarrow> True
      | Inr (s # _) \<Rightarrow> (case ppi_adjusted_2020 db s of Inl _ \<Rightarrow> False | Inr _ \<Rightarrow> True))"

text \<open>The queries that handling one selection sends, in order.\<close>

definition queries_of :: "bigquery \<Rightarrow> selection \<Rightarrow> query list" where
  "queries_of db sel =
     Series_Details (fst sel) (if truthy (fst (snd sel)) then fst (snd sel) else None) #
     (case resolution db sel of Inr (s # _) \<Rightarrow> [Adjusted_2020 s] | _ \<Rightarrow> [])"

text \<open>The weighted series: every value multiplied by \<^verbatim>\<open>weight / 100\<close>.\<close>

definition weighted :: "selection \<Rightarrow> timeseries \<Rightarrow> timeseries" where
  "weighted sel rows = map (\<lambda>(d, v). (d, v * (snd (snd sel) / 100))) rows"

definition weighted_of :: "selection \<times> string \<times> timeseries \<Rightarrow> timeseries" where
  "weighted_of p = weighted (fst p) (snd (snd p))"

text \<open>The two frames the loop leaves in the store for a surviving pair, and the composite
  series of a list of surviving pairs.\<close>

definition built :: "selection \<times> string \<times> timeseries \<Rightarrow> timeseries list" where
  "built p = [weighted_of p, sort_values (snd (snd p))]"

definition composite :: "(selection \<times> string \<times> timeseries) list \<Rightarrow> timeseries" where
  "composite ps = sort_values (groupby_sum (concat (map weighted_of ps)))"

text \<open>The resolution of the selection returned at least one identifier.\<close>

definition resolves :: "bigquery \<Rightarrow> selection \<Rightarrow> bool" where
  "resolves db sel = (case resolution db sel of Inr (s # _) \<Rightarrow> True | _ \<Rightarrow> False)"

section \<open>Example data\<close>

text \<open>Concrete inputs on which the theorems below are instantiated:
  \<^item> \<open>scenario_db\<close> with \<open>scenario_selections\<close>: the end-to-end scenario of the specification
    (steel at 60 percent, oil at 40 percent), with a second identifier for steel whose series
    cannot be read, and a wheat series on other dates;
  \<^item> \<open>zero_weight_selections\<close>: steel at 0 percent and wheat at 100 percent;
  \<^item> \<open>unmatched_db\<close>: a warehouse in which no category pair has a series;
  \<^item> \<open>outage_db\<close>: a warehouse in which the resolution of steel raises;
  \<^item> \<open>fresh_world\<close>, \<open>weighted_world\<close>, \<open>plotted_world\<close>: an empty store, a store of three
    weighted series, and a store with a composite series ending on a leap day and one
    individual series.\<close>

definition scenario_db :: bigquery where
  "scenario_db =
     \<lparr>ppi_series_details = (\<lambda>c2 c3.
          if c2 = ''Metals'' \<and> c3 = Some ''Steel'' then Inr [''WPU1017'', ''WPU101707'']
          else if c2 = ''Energy'' \<and> c3 = Some ''Oil'' then Inr [''WPU0561'']
          else if c2 = ''Farm'' \<and> c3 = Some ''Wheat'' then Inr [''WPU0121'']
          else Inr []),
      ppi_adjusted_2020 = (\<lambda>s.
          if s = ''WPU1017'' then Inr [((2021, 2, 1), 12), ((2021, 1, 1), 10)]
          else if s = ''WPU0561'' then Inr [((2021, 1, 1), 20), ((2021, 2, 1), 22)]
          else if s = ''WPU0121'' then Inr [((2021, 2, 1), 30), ((2021, 3, 1), 33)]
          else Inl (DatabaseError ''unavailable''))\<rparr>"

definition scenario_selections :: "selection list" where
  "scenario_selections = [(''Metals'', Some ''Steel'', 60), (''Energy'', Some ''Oil'', 40)]"

definition unmatched_db :: bigquery where
  "unmatched_db = \<lparr>ppi_series_details = (\<lambda>c2 c3. Inr []), ppi_adjusted_2020 = (\<lambda>s. Inr [])\<rparr>"

definition fresh_world :: world where
  "fresh_world = \<lparr>frames = [], issued = []\<rparr>"


definition outage_db :: bigquery where
  "outage_db =
     \<lparr>ppi_series_details = (\<lambda>c2 c3.
          if c2 = ''Metals'' \<and> c3 = Some ''Steel'' then Inl (DatabaseError ''connection lost'')
          else if c2 = ''Energy'' \<and> c3 = Some ''Oil'' then Inr [''WPU0561'']
          else Inr []),
      ppi_adjusted_2020 = (\<lambda>s.
          if s = ''WPU0561'' then Inr [((2021, 1, 1), 20), ((2021, 2, 1), 22)]
          else Inr [])\<rparr>"



section \<open>One turn of the loop\<close>

lemma zip_fst_map_snd: "zip (map fst rows) (map (f \<circ> snd) rows) = map (\<lambda>(d, v). (d, f v)) rows"
  by (induction rows) auto

lemma map_upt_Suc0: "map f [0..<Suc n] = f 0 # map (\<lambda>k. f (Suc k)) [0..<n]"
  by (simp only: upt_conv_Cons[of 0 "Suc n"] map_Suc_upt[symmetric]) (simp add: comp_def)

lemma process_loop_step_drop:
  "resolution db sel = Inr [] \<Longrightarrow>
   process_loop db (sel # rest) st w =
   process_loop db rest st (w\<lparr>issued := issued w @ queries_of db sel\<rparr>)"
  by (simp add: fetch_series_data_def resolution_def queries_of_def Let_def)

lemma process_loop_step_keep:
  "resolution db sel = Inr (s # others) \<Longrightarrow> ppi_adjusted_2020 db s = Inr rows \<Longrightarrow>
   process_loop db (sel # rest) st w =
   process_loop db rest
     (st\<lparr>individual_indexes := individual_indexes st @ [Suc (length (frames w))],
         index_ids := index_ids st @ [s],
         index_categories := index_categories st @ [format_str (fst (snd sel))],
         weighted_dataframes := weighted_dataframes st @ [length (frames w)]\<rparr>)
     \<lparr>frames = frames w @ [weighted sel rows, sort_values rows],
      issued = issued w @ queries_of db sel\<rparr>"
  apply (simp add: fetch_series_data_def fetch_timeseries_data_def resolution_def queries_of_def Let_def
     set_observation_date_def set_adjusted_index_value_def new_frame_def to_datetime_def
     observation_date_def adjusted_index_value_def weighted_def zip_fst_map_snd nth_append
     list_update_append zip_map_fst_snd split: prod.splits)
  done

lemma process_loop_step_unresolved:
  "resolution db sel = Inl e \<Longrightarrow>
   process_loop db (sel # rest) st w = (Inl e, w\<lparr>issued := issued w @ queries_of db sel\<rparr>)"
  by (simp add: fetch_series_data_def resolution_def queries_of_def Let_def)

lemma process_loop_step_unfetched:
  "resolution db sel = Inr (s # others) \<Longrightarrow> ppi_adjusted_2020 db s = Inl e \<Longrightarrow>
   process_loop db (sel # rest) st w = (Inl e, w\<lparr>issued := issued w @ queries_of db sel\<rparr>)"
  by (simp add: fetch_series_data_def fetch_timeseries_data_def resolution_def queries_of_def Let_def)

declare process_loop.simps(2) [simp del]

lemma survivors_Nil [simp]: "survivors db [] = []"
  by (simp add: survivors_def)

lemma survivors_drop:
  "resolution db sel = Inr [] \<Longrightarrow> survivors db (sel # rest) = survivors db rest"
  by (simp add: survivors_def survivor_def)

lemma survivors_keep:
  "resolution db sel = Inr (s # others) \<Longrightarrow> ppi_adjusted_2020 db s = Inr rows \<Longrightarrow>
   survivors db (sel # rest) = (sel, s, rows) # survivors db rest"
  by (simp add: survivors_def survivor_def)

lemma process_loop_answered:
  "list_all (answered db) sels \<Longrightarrow>
   process_loop db sels st w =
    (Inr (st\<lparr>individual_indexes := individual_indexes st @
               map (\<lambda>k. Suc (length (frames w) + 2 * k)) [0..<length (survivors db sels)],
            index_ids := index_ids st @ map (\<lambda>p. fst (snd p)) (survivors db sels),
            index_categories := index_categories st @
               map (\<lambda>p. format_str (fst (snd (fst p)))) (survivors db sels),
            weighted_dataframes := weighted_dataframes st @
               map (\<lambda>k. length (frames w) + 2 * k) [0..<length (survivors db sels)]\<rparr>),
     \<lparr>frames = frames w @ concat (map built (survivors db sels)),
      issued = issued w @ concat (map (queries_of db) sels)\<rparr>)"
proof (induction sels arbitrary: st w)
  case Nil
  then show ?case by simp
next
  case (Cons sel rest)
  from Cons.prems have ok: "answered db sel" and rest: "list_all (answered db) rest"
    by simp_all
  show ?case
  proof (cases "resolution db sel")
    case (Inl e)
    with ok show ?thesis by (simp add: answered_def)
  next
    case (Inr series_id)
    show ?thesis
    proof (cases series_id)
      case Nil
      with Inr have r: "resolution db sel = Inr []" by simp
      show ?thesis
        by (simp add: process_loop_step_drop[OF r] survivors_drop[OF r] Cons.IH[OF rest])
    next
      case (Cons s others)
      with Inr have r: "resolution db sel = Inr (s # others)" by simp
      from ok r obtain rows where f: "ppi_adjusted_2020 db s = Inr rows"
        by (auto simp: answered_def split: sum.splits)
      show ?thesis
        by (simp add: process_loop_step_keep[OF r f] survivors_keep[OF r f] Cons.IH[OF rest]
            map_upt_Suc0 built_def weighted_of_def del: upt_Suc)
    qed
  qed
qed


lemma process_loop_returns_answered:
  "process_loop db sels st w = (Inr st', w') \<Longrightarrow> list_all (answered db) sels"
proof (induction sels arbitrary: st w)
  case Nil
  then show ?case by simp
next
  case (Cons sel rest)
  show ?case
  proof (cases "resolution db sel")
    case (Inl e)
    with Cons.prems show ?thesis by (simp add: process_loop_step_unresolved)
  next
    case (Inr series_id)
    show ?thesis
    proof (cases series_id)
      case Nil
      with Inr have r: "resolution db sel = Inr []" by simp
      from Cons.prems Cons.IH show ?thesis
        by (simp add: process_loop_step_drop[OF r] answered_def r)
    next
      case (Cons s others)
      with Inr have r: "resolution db sel = Inr (s # others)" by simp
      show ?thesis
      proof (cases "ppi_adjusted_2020 db s")
        case (Inl e)
        with Cons.prems show ?thesis by (simp add: process_loop_step_unfetched[OF r Inl])
      next
        case f: (Inr rows)
        from Cons.prems Cons.IH show ?thesis
          by (simp add: process_loop_step_keep[OF r f] answered_def r f)
      qed
    qed
  qed
qed

lemma map_upt_nth: "(\<And>k. k < length ps \<Longrightarrow> f k = g (ps ! k)) \<Longrightarrow> map f [0..<length ps] = map g ps"
  by (rule nth_equalityI) simp_all

lemma length_concat_built: "length (concat (map built ps)) = 2 * length ps"
  by (induction ps) (simp_all add: built_def)

lemma nth_concat_built:
  "k < length ps \<Longrightarrow>
   concat (map built ps) ! (2 * k) = weighted_of (ps ! k) \<and>
   concat (map built ps) ! Suc (2 * k) = sort_values (snd (snd (ps ! k)))"
proof (induction ps arbitrary: k)
  case Nil
  then show ?case by simp
next
  case (Cons p ps)
  show ?case
  proof (cases k)
    case 0
    then show ?thesis by (simp add: built_def)
  next
    case (Suc j)
    with Cons.prems have "j < length ps" by simp
    from Cons.IH[OF this] Suc show ?thesis by (simp add: built_def)
  qed
qed

lemma nth_store_built:
  assumes "k < length ps"
  shows "(F @ concat (map built ps) @ G) ! (length F + 2 * k) = weighted_of (ps ! k)"
    and "(F @ concat (map built ps) @ G) ! Suc (length F + 2 * k) = sort_values (snd (snd (ps ! k)))"
proof -
  from assms have a: "2 * k < length (concat (map built ps))"
    and b: "Suc (2 * k) < length (concat (map built ps))"
    by (simp_all add: length_concat_built)
  have "(F @ concat (map built ps) @ G) ! (length F + 2 * k) = (concat (map built ps) @ G) ! (2 * k)"
    by (simp only: nth_append_length_plus)
  with a show "(F @ concat (map built ps) @ G) ! (length F + 2 * k) = weighted_of (ps ! k)"
    by (simp add: nth_append nth_concat_built[OF assms])
  have "(F @ concat (map built ps) @ G) ! (length F + Suc (2 * k)) = (concat (map built ps) @ G) ! Suc (2 * k)"
    by (simp only: nth_append_length_plus)
  with b show "(F @ concat (map built ps) @ G) ! Suc (length F + 2 * k) = sort_values (snd (snd (ps ! k)))"
    by (simp add: nth_append nth_concat_built[OF assms])
qed

lemma nth_built_weighted:
  "map (\<lambda>k. (F @ concat (map built ps) @ G) ! (length F + 2 * k)) [0..<length ps] = map weighted_of ps"
  by (rule map_upt_nth) (rule nth_store_built)

lemma nth_built_sorted:
  "map (\<lambda>k. (F @ concat (map built ps) @ G) ! Suc (length F + 2 * k)) [0..<length ps]
     = map (\<lambda>p. sort_values (snd (snd p))) ps"
  by (rule map_upt_nth) (rule nth_store_built)

lemma process_data_answered:
  assumes "list_all (answered db) sels"
  shows "process_data db sels w =
     (if survivors db sels = [] then
        (Inr (Empty_DataFrame, [], [], []),
         \<lparr>frames = frames w, issued = issued w @ concat (map (queries_of db) sels)\<rparr>)
      else
        (Inr (Frame (length (frames w) + 2 * length (survivors db sels)),
              map (\<lambda>k. Suc (length (frames w) + 2 * k)) [0..<length (survivors db sels)],
              map (\<lambda>p. format_str (fst (snd (fst p)))) (survivors db sels),
              map (\<lambda>p. fst (snd p)) (survivors db sels)),
         \<lparr>frames = frames w @ concat (map built (survivors db sels)) @ [composite (survivors db sels)],
          issued = issued w @ concat (map (queries_of db) sels)\<rparr>))"
proof -
  have "map (\<lambda>k. concat (map built (survivors db sels)) ! (2 * k))
             [0..<length (survivors db sels)] = map weighted_of (survivors db sels)"
    by (rule map_upt_nth) (simp add: nth_concat_built)
  then show ?thesis
    by (simp add: process_data_def process_loop_answered[OF assms] aggregate_def new_frame_def
        Let_def comp_def composite_def length_concat_built)
qed

section \<open>Nothing survives\<close>

lemma unresolved_answered:
  "\<forall>sel\<in>set sels. resolution db sel = Inr [] \<Longrightarrow> list_all (answered db) sels"
  by (induction sels) (simp_all add: answered_def)

lemma unresolved_no_survivor:
  "\<forall>sel\<in>set sels. resolution db sel = Inr [] \<Longrightarrow> survivors db sels = []"
  by (induction sels) (simp_all add: survivors_drop)

text \<open>
  C2. For the empty selection set, and for a selection set in which the resolution of every
  selection returns no identifier, \<^verbatim>\<open>process_data\<close> returns (it does not raise) the
  column-less frame \<^verbatim>\<open>pd.DataFrame()\<close> as composite series and three empty lists, and it
  creates no frame.
\<close>

theorem no_survivor_empty_outputs:
  "process_data db [] w = (Inr (Empty_DataFrame, [], [], []), w) \<and>
   ((\<forall>sel\<in>set selections. resolution db sel = Inr []) \<longrightarrow>
      fst (process_data db selections w) = Inr (Empty_DataFrame, [], [], []) \<and>
      frames (snd (process_data db selections w)) = frames w)"
proof (intro conjI impI)
  show "process_data db [] w = (Inr (Empty_DataFrame, [], [], []), w)"
    by (simp add: process_data_def aggregate_def)
next
  assume a: "\<forall>sel\<in>set selections. resolution db sel = Inr []"
  from process_data_answered[OF unresolved_answered[OF a], of w] unresolved_no_survivor[OF a]
  show "fst (process_data db selections w) = Inr (Empty_DataFrame, [], [], [])"
    and "frames (snd (process_data db selections w)) = frames w"
    by simp_all
qed

theorem no_survivor_empty_outputs_witness:
  "list_all (\<lambda>sel. resolution unmatched_db sel = Inr []) scenario_selections \<and>
   fst (process_data unmatched_db scenario_selections fresh_world) = Inr (Empty_DataFrame, [], [], []) \<and>
   frames (snd (process_data unmatched_db scenario_selections fresh_world)) = []"
proof -
  have h: "\<forall>sel\<in>set scenario_selections. resolution unmatched_db sel = Inr []"
    by (simp add: scenario_selections_def resolution_def unmatched_db_def)
  with no_survivor_empty_outputs[of unmatched_db fresh_world scenario_selections]
  show ?thesis by (simp add: fresh_world_def list_all_iff)
qed

section \<open>Plotting when nothing survives\<close>

lemma generate_plot_Empty_DataFrame:
  "generate_plot Empty_DataFrame individuals categories w = (Inl (KeyError ''observation_date''), w)"
  by (simp add: generate_plot_def)

text \<open>
  C5. The claim is that plotting the empty composite series does not raise. On the code it
  does: \<^verbatim>\<open>process_data\<close> returns \<^verbatim>\<open>pd.DataFrame()\<close>, which has no column
  \<^verbatim>\<open>observation_date\<close>, and line 19 of \<^verbatim>\<open>generate_plot\<close> reads that column. With one
  selection that no series matches, the computation started by Submit ends in
  \<^verbatim>\<open>KeyError: 'observation_date'\<close>.
\<close>

theorem nothing_to_plot_raises:
  "submit unmatched_db [(''Metals'', Some ''Steel'', 100)] fresh_world =
     (Inl (KeyError ''observation_date''),
      \<lparr>frames = [], issued = [Series_Details ''Metals'' (Some ''Steel'')]\<rparr>)"
  by (simp add: submit_def process_data_def process_loop.simps(2) fetch_series_data_def truthy_def
      unmatched_db_def fresh_world_def aggregate_def generate_plot_def)

section \<open>The outputs of a computation whose calls all return\<close>

lemma process_data_returns_answered:
  "process_data db sels w = (Inr out, w') \<Longrightarrow> list_all (answered db) sels"
  by (auto simp: process_data_def Let_def split: prod.splits sum.splits
      dest: process_loop_returns_answered)








lemma process_data_outputs:
  assumes "list_all (answered db) sels"
  obtains agg inds w' where
    "process_data db sels w =
       (Inr (agg, inds, map (\<lambda>p. format_str (fst (snd (fst p)))) (survivors db sels),
             map (\<lambda>p. fst (snd p)) (survivors db sels)), w')"
    and "length inds = length (survivors db sels)"
    and "\<And>i. i < length (survivors db sels) \<Longrightarrow>
           inds ! i < length (frames w') \<and>
           frames w' ! (inds ! i) = sort_values (snd (snd (survivors db sels ! i)))"
    and "survivors db sels = [] \<Longrightarrow> agg = Empty_DataFrame"
    and "survivors db sels \<noteq> [] \<Longrightarrow>
           \<exists>r. agg = Frame r \<and> r < length (frames w') \<and> frames w' ! r = composite (survivors db sels)"
    and "issued w' = issued w @ concat (map (queries_of db) sels)"
    and "take (length (frames w)) (frames w') = frames w"
proof (cases "survivors db sels = []")
  case True
  show ?thesis
    by (rule that[of Empty_DataFrame "[]" "\<lparr>frames = frames w, issued = issued w @ concat (map (queries_of db) sels)\<rparr>"])
       (simp_all add: process_data_answered[OF assms] True)
next
  case False
  let ?S = "survivors db sels"
  let ?w' = "\<lparr>frames = frames w @ concat (map built ?S) @ [composite ?S],
             issued = issued w @ concat (map (queries_of db) sels)\<rparr>"
  let ?inds = "map (\<lambda>k. Suc (length (frames w) + 2 * k)) [0..<length ?S]"
  have at: "(frames w @ concat (map built ?S) @ [composite ?S]) ! (length (frames w) + 2 * length ?S)
              = composite ?S"
    by (simp add: nth_append length_concat_built)
  have ind: "\<And>i. i < length ?S \<Longrightarrow>
      (frames w @ concat (map built ?S) @ [composite ?S]) ! Suc (length (frames w) + 2 * i)
        = sort_values (snd (snd (?S ! i)))"
    by (rule nth_store_built)
  show ?thesis
  proof (rule that[of "Frame (length (frames w) + 2 * length ?S)" ?inds ?w'])
    show "process_data db sels w =
       (Inr (Frame (length (frames w) + 2 * length ?S), ?inds,
             map (\<lambda>p. format_str (fst (snd (fst p)))) ?S, map (\<lambda>p. fst (snd p)) ?S), ?w')"
      by (simp add: process_data_answered[OF assms] False)
    show "length ?inds = length ?S" by simp
    show "?inds ! i < length (frames ?w') \<and> frames ?w' ! (?inds ! i) = sort_values (snd (snd (?S ! i)))"
      if "i < length ?S" for i
      using that ind[OF that] by (simp add: length_concat_built del: nth_append_length_plus)
    show "Frame (length (frames w) + 2 * length ?S) = Empty_DataFrame" if "?S = []"
      using that False by simp
    show "\<exists>r. Frame (length (frames w) + 2 * length ?S) = Frame r \<and> r < length (frames ?w') \<and>
            frames ?w' ! r = composite ?S"
      using at by (simp add: length_concat_built)
    show "issued ?w' = issued w @ concat (map (queries_of db) sels)" by simp
    show "take (length (frames w)) (frames ?w') = frames w" by simp
  qed
qed




lemma scenario_survivors:
  "survivors scenario_db scenario_selections =
     [((''Metals'', Some ''Steel'', 60), ''WPU1017'', [((2021, 2, 1), 12), ((2021, 1, 1), 10)]),
      ((''Energy'', Some ''Oil'', 40), ''WPU0561'', [((2021, 1, 1), 20), ((2021, 2, 1), 22)])]"
  by (simp add: survivors_def survivor_def resolution_def scenario_db_def scenario_selections_def
      truthy_def)

lemma end_to_end_scenario:
  "process_data scenario_db scenario_selections fresh_world =
    (Inr (Frame 4, [1, 3], [''Steel'', ''Oil''], [''WPU1017'', ''WPU0561'']),
     \<lparr>frames = [[((2021, 2, 1), 36 / 5), ((2021, 1, 1), 6)],
                 [((2021, 1, 1), 10), ((2021, 2, 1), 12)],
                 [((2021, 1, 1), 8), ((2021, 2, 1), 44 / 5)],
                 [((2021, 1, 1), 20), ((2021, 2, 1), 22)],
                 [((2021, 1, 1), 14), ((2021, 2, 1), 16)]],
      issued = [Series_Details ''Metals'' (Some ''Steel''), Adjusted_2020 ''WPU1017'',
                Series_Details ''Energy'' (Some ''Oil''), Adjusted_2020 ''WPU0561'']\<rparr>)"
  by (simp add: process_data_def process_loop.simps(2) scenario_db_def scenario_selections_def
      fresh_world_def fetch_series_data_def fetch_timeseries_data_def truthy_def Let_def
      set_observation_date_def set_adjusted_index_value_def new_frame_def to_datetime_def
      observation_date_def adjusted_index_value_def sort_values_def groupby_sum_def aggregate_def
      format_str_def)


lemma survivors_Cons:
  "survivors db (sel # rest) =
     (case survivor db sel of None \<Rightarrow> survivors db rest | Some p \<Rightarrow> p # survivors db rest)"
  by (simp add: survivors_def split: option.split)

lemma survivor_Some:
  "survivor db sel = Some p \<longleftrightarrow>
     fst p = sel \<and> (\<exists>others. resolution db sel = Inr (fst (snd p) # others)) \<and>
     ppi_adjusted_2020 db (fst (snd p)) = Inr (snd (snd p))"
  by (cases p) (auto simp: survivor_def split: sum.splits list.splits)

lemma survivors_sound:
  "p \<in> set (survivors db sels) \<Longrightarrow>
     fst p \<in> set sels \<and>
     (\<exists>others. resolution db (fst p) = Inr (fst (snd p) # others)) \<and>
     ppi_adjusted_2020 db (fst (snd p)) = Inr (snd (snd p))"
proof (induction sels)
  case Nil
  then show ?case by simp
next
  case (Cons sel rest)
  show ?case
  proof (cases "survivor db sel")
    case None
    with Cons show ?thesis by (simp add: survivors_Cons)
  next
    case (Some q)
    show ?thesis
    proof (cases "p = q")
      case True
      with Some show ?thesis by (simp add: survivor_Some)
    next
      case False
      with Some Cons show ?thesis by (simp add: survivors_Cons)
    qed
  qed
qed

lemma resolves_survivor:
  "answered db sel \<Longrightarrow> resolves db sel \<longleftrightarrow> survivor db sel \<noteq> None"
  by (cases sel) (auto simp: answered_def resolves_def survivor_def split: sum.splits list.splits)

lemma survivors_order:
  "list_all (answered db) sels \<Longrightarrow> map fst (survivors db sels) = filter (resolves db) sels"
proof (induction sels)
  case Nil
  then show ?case by simp
next
  case (Cons sel rest)
  then have a: "answered db sel" and IH: "map fst (survivors db rest) = filter (resolves db) rest"
    by simp_all
  show ?case
  proof (cases "survivor db sel")
    case None
    with resolves_survivor[OF a] IH show ?thesis by (simp add: survivors_Cons)
  next
    case (Some q)
    then have "fst q = sel" by (simp add: survivor_Some)
    with Some resolves_survivor[OF a] IH show ?thesis by (simp add: survivors_Cons)
  qed
qed

lemma sort_values_sorted: "sorted (map fst (sort_values rows))"
  by (simp add: sort_values_def)

lemma sort_values_mset: "mset (sort_values rows) = mset rows"
  by (simp add: sort_values_def)

text \<open>
  C8. Whenever \<^verbatim>\<open>process_data\<close> returns, the lists of individual series, labels and
  identifiers have the length of the list of surviving pairs, which are the resolving
  selections in input order. At every index \<open>i\<close> the three entries belong to the \<open>i\<close>-th
  surviving pair: the label is its \<^verbatim>\<open>category_3\<close> as the f-string prints it, the identifier
  is the first identifier of its resolution, and the individual series is a frame of the
  store holding the rows fetched for that identifier, unweighted, in ascending date order.
\<close>

theorem parallel_outputs:
  assumes "process_data db selections w = (Inr (agg, individuals, categories, ids), w')"
  shows "length individuals = length (survivors db selections) \<and>
     length categories = length (survivors db selections) \<and>
     length ids = length (survivors db selections) \<and>
     map fst (survivors db selections) = filter (resolves db) selections \<and>
     (\<forall>i<length (survivors db selections).
        case survivors db selections ! i of ((c2, c3, weight), s, rows) \<Rightarrow>
          categories ! i = (case c3 of None \<Rightarrow> ''None'' | Some c \<Rightarrow> c) \<and>
          ids ! i = s \<and>
          (\<exists>others. resolution db (c2, c3, weight) = Inr (s # others)) \<and>
          ppi_adjusted_2020 db s = Inr rows \<and>
          individuals ! i < length (frames w') \<and>
          sorted (map fst (frames w' ! (individuals ! i))) \<and>
          mset (frames w' ! (individuals ! i)) = mset rows)"
proof -
  let ?S = "survivors db selections"
  have ok: "list_all (answered db) selections"
    using assms by (rule process_data_returns_answered)
  obtain agg0 inds0 w0 where
    run: "process_data db selections w =
       (Inr (agg0, inds0, map (\<lambda>p. format_str (fst (snd (fst p)))) ?S, map (\<lambda>p. fst (snd p)) ?S), w0)"
    and len0: "length inds0 = length ?S"
    and ind0: "\<And>i. i < length ?S \<Longrightarrow> inds0 ! i < length (frames w0) \<and>
           frames w0 ! (inds0 ! i) = sort_values (snd (snd (?S ! i)))"
    using process_data_outputs[OF ok, of w] by metis
  from run assms
  have cats: "categories = map (\<lambda>p. format_str (fst (snd (fst p)))) ?S"
    and ids: "ids = map (\<lambda>p. fst (snd p)) ?S"
    and eqs: "inds0 = individuals" "w0 = w'"
    by simp_all
  from len0 ind0 have len: "length individuals = length ?S"
    and ind: "\<And>i. i < length ?S \<Longrightarrow> individuals ! i < length (frames w') \<and>
           frames w' ! (individuals ! i) = sort_values (snd (snd (?S ! i)))"
    unfolding eqs by simp_all
  have "case ?S ! i of ((c2, c3, weight), s, rows) \<Rightarrow>
          categories ! i = (case c3 of None \<Rightarrow> ''None'' | Some c \<Rightarrow> c) \<and>
          ids ! i = s \<and>
          (\<exists>others. resolution db (c2, c3, weight) = Inr (s # others)) \<and>
          ppi_adjusted_2020 db s = Inr rows \<and>
          individuals ! i < length (frames w') \<and>
          sorted (map fst (frames w' ! (individuals ! i))) \<and>
          mset (frames w' ! (individuals ! i)) = mset rows" if i: "i < length ?S" for i
  proof -
    from i have "?S ! i \<in> set ?S" by simp
    from survivors_sound[OF this] ind[OF i] i show ?thesis
      by (simp add: cats ids format_str_def sort_values_sorted sort_values_mset split_def)
  qed
  with len survivors_order[OF ok] show ?thesis
    by (simp add: cats ids)
qed




theorem parallel_outputs_witness:
  "process_data scenario_db scenario_selections fresh_world =
     (Inr (Frame 4, [1, 3], [''Steel'', ''Oil''], [''WPU1017'', ''WPU0561'']),
      snd (process_data scenario_db scenario_selections fresh_world)) \<and>
   length [''Steel'', ''Oil''] = length (survivors scenario_db scenario_selections) \<and>
   map fst (survivors scenario_db scenario_selections) = scenario_selections"
proof -
  have h: "process_data scenario_db scenario_selections fresh_world =
     (Inr (Frame 4, [1, 3], [''Steel'', ''Oil''], [''WPU1017'', ''WPU0561'']),
      snd (process_data scenario_db scenario_selections fresh_world))"
    by (simp add: end_to_end_scenario)
  from parallel_outputs[OF h]
  have "length [''Steel'', ''Oil''] = length (survivors scenario_db scenario_selections)"
    by (elim conjE)
  moreover have "map fst (survivors scenario_db scenario_selections) = scenario_selections"
    unfolding scenario_survivors by (simp add: scenario_selections_def)
  ultimately show ?thesis using h by (intro conjI)
qed

section \<open>A selection of weight zero\<close>








section \<open>The queries a computation sends\<close>

lemma selection_cases:
  obtains (unresolved) e where "resolution db sel = Inl e"
  | (dropped) "resolution db sel = Inr []"
  | (unfetched) s others e where "resolution db sel = Inr (s # others)" "ppi_adjusted_2020 db s = Inl e"
  | (kept) s others rows where "resolution db sel = Inr (s # others)" "ppi_adjusted_2020 db s = Inr rows"
proof (cases "resolution db sel")
  case (Inl e)
  then show ?thesis by (rule unresolved)
next
  case (Inr series_id)
  show ?thesis
  proof (cases series_id)
    case Nil
    with Inr show ?thesis by (simp add: dropped)
  next
    case (Cons s others)
    with Inr have r: "resolution db sel = Inr (s # others)" by simp
    show ?thesis
    proof (cases "ppi_adjusted_2020 db s")
      case (Inl e)
      with r show ?thesis by (rule unfetched)
    next
      case (Inr rows)
      with r show ?thesis by (rule kept)
    qed
  qed
qed










section \<open>A selection without a series is dropped\<close>

lemma process_loop_store_only:
  "frames w = frames v \<Longrightarrow>
   fst (process_loop db sels st w) = fst (process_loop db sels st v) \<and>
   frames (snd (process_loop db sels st w)) = frames (snd (process_loop db sels st v))"
proof (induction sels arbitrary: st w v)
  case Nil
  then show ?case by simp
next
  case (Cons sel rest)
  show ?case
  proof (cases rule: selection_cases[of db sel])
    case (unresolved e)
    with Cons.prems show ?thesis by (simp add: process_loop_step_unresolved)
  next
    case dropped
    have "frames (w\<lparr>issued := issued w @ queries_of db sel\<rparr>)
            = frames (v\<lparr>issued := issued v @ queries_of db sel\<rparr>)"
      using Cons.prems by simp
    from Cons.IH[OF this] show ?thesis
      by (simp add: process_loop_step_drop[OF dropped])
  next
    case (unfetched s others e)
    with Cons.prems show ?thesis by (simp add: process_loop_step_unfetched)
  next
    case (kept s others rows)
    have "frames \<lparr>frames = frames w @ [weighted sel rows, sort_values rows],
                  issued = issued w @ queries_of db sel\<rparr>
        = frames \<lparr>frames = frames v @ [weighted sel rows, sort_values rows],
                  issued = issued v @ queries_of db sel\<rparr>"
      using Cons.prems by simp
    from Cons.IH[OF this] Cons.prems show ?thesis
      by (simp add: process_loop_step_keep[OF kept])
  qed
qed

lemma process_loop_drop_unresolved:
  assumes "resolution db sel = Inr []"
  shows "fst (process_loop db (before @ sel # after) st w) = fst (process_loop db (before @ after) st w) \<and>
         frames (snd (process_loop db (before @ sel # after) st w))
           = frames (snd (process_loop db (before @ after) st w))"
proof (induction before arbitrary: st w)
  case Nil
  have "frames (w\<lparr>issued := issued w @ queries_of db sel\<rparr>) = frames w" by simp
  from process_loop_store_only[OF this] show ?case
    by (simp add: process_loop_step_drop[OF assms])
next
  case (Cons x before)
  show ?case
  proof (cases rule: selection_cases[of db x])
    case (unresolved e)
    then show ?thesis by (simp add: process_loop_step_unresolved)
  next
    case dropped
    with Cons.IH show ?thesis by (simp add: process_loop_step_drop)
  next
    case (unfetched s others e)
    then show ?thesis by (simp add: process_loop_step_unfetched)
  next
    case (kept s others rows)
    with Cons.IH show ?thesis by (simp add: process_loop_step_keep)
  qed
qed

lemma aggregate_store_only:
  "frames w = frames v \<Longrightarrow>
   fst (aggregate refs w) = fst (aggregate refs v) \<and>
   frames (snd (aggregate refs w)) = frames (snd (aggregate refs v))"
  by (simp add: aggregate_def new_frame_def Let_def)

lemma process_data_via_loop:
  "process_data db sels w =
     (case process_loop db sels
             \<lparr>individual_indexes = [], index_categories = [], index_ids = [],
              weighted_dataframes = []\<rparr> w of
        (Inl e, w1) \<Rightarrow> (Inl e, w1)
      | (Inr st, w1) \<Rightarrow>
          (Inr (fst (aggregate (weighted_dataframes st) w1), individual_indexes st,
                index_categories st, index_ids st),
           snd (aggregate (weighted_dataframes st) w1)))"
  by (simp add: process_data_def Let_def split: prod.splits sum.splits)

lemma process_data_store_only:
  assumes "fst (process_loop db sels st0 w) = fst (process_loop db sels' st0 v)"
    and "frames (snd (process_loop db sels st0 w)) = frames (snd (process_loop db sels' st0 v))"
    and "st0 = \<lparr>individual_indexes = [], index_categories = [], index_ids = [],
              weighted_dataframes = []\<rparr>"
  shows "fst (process_data db sels w) = fst (process_data db sels' v) \<and>
         frames (snd (process_data db sels w)) = frames (snd (process_data db sels' v))"
proof (cases "process_loop db sels st0 w")
  case (Pair r w1)
  obtain r' v1 where p': "process_loop db sels' st0 v = (r', v1)" by (cases "process_loop db sels' st0 v")
  from assms Pair p' have r: "r' = r" and f: "frames w1 = frames v1" by simp_all
  show ?thesis
  proof (cases r)
    case (Inl e)
    with Pair p' r f assms(3) show ?thesis by (simp add: process_data_via_loop)
  next
    case (Inr st)
    with Pair p' r assms(3) aggregate_store_only[OF f, of "weighted_dataframes st"] show ?thesis
      by (simp add: process_data_via_loop)
  qed
qed

lemma survivors_append: "survivors db (xs @ ys) = survivors db xs @ survivors db ys"
  by (induction xs) (simp_all add: survivors_Cons split: option.split)

text \<open>
  C4. A selection whose resolution returns no identifier leaves no mark on the computation:
  with it or without it in the selection list, \<^verbatim>\<open>process_data\<close> returns the same result
  (the same composite series, individual series, labels and identifiers, or the same failure
  raised for another selection) and the same store of frames. Only the list of queries sent
  differs, by the one resolution query.
\<close>

theorem unresolved_selection_dropped:
  assumes "resolution db sel = Inr []"
  shows "fst (process_data db (before @ sel # after) w) = fst (process_data db (before @ after) w) \<and>
         frames (snd (process_data db (before @ sel # after) w))
           = frames (snd (process_data db (before @ after) w)) \<and>
         survivors db (before @ sel # after) = survivors db (before @ after)"
proof -
  let ?st0 = "\<lparr>individual_indexes = [], index_categories = [], index_ids = [],
              weighted_dataframes = []\<rparr>"
  from process_loop_drop_unresolved[OF assms, of before after ?st0 w]
  have "fst (process_data db (before @ sel # after) w) = fst (process_data db (before @ after) w) \<and>
         frames (snd (process_data db (before @ sel # after) w))
           = frames (snd (process_data db (before @ after) w))"
    by (intro process_data_store_only[where ?st0.0 = ?st0]) simp_all
  moreover have "survivors db (before @ sel # after) = survivors db (before @ after)"
    by (simp add: survivors_append survivors_drop[OF assms])
  ultimately show ?thesis by simp
qed

theorem unresolved_selection_dropped_witness:
  "resolution scenario_db (''Textiles'', Some ''Yarn'', 25) = Inr [] \<and>
   fst (process_data scenario_db
          ([(''Metals'', Some ''Steel'', 60)] @ (''Textiles'', Some ''Yarn'', 25) # [(''Energy'', Some ''Oil'', 40)])
          fresh_world)
     = Inr (Frame 4, [1, 3], [''Steel'', ''Oil''], [''WPU1017'', ''WPU0561''])"
proof -
  have h: "resolution scenario_db (''Textiles'', Some ''Yarn'', 25) = Inr []"
    by (simp add: resolution_def scenario_db_def truthy_def)
  have "fst (process_data scenario_db ([(''Metals'', Some ''Steel'', 60)] @ [(''Energy'', Some ''Oil'', 40)])
          fresh_world) = Inr (Frame 4, [1, 3], [''Steel'', ''Oil''], [''WPU1017'', ''WPU0561''])"
    using end_to_end_scenario by (simp add: scenario_selections_def)
  with unresolved_selection_dropped[OF h, of "[(''Metals'', Some ''Steel'', 60)]"
      "[(''Energy'', Some ''Oil'', 40)]" fresh_world] h
  show ?thesis by simp
qed


section \<open>A call of the repository that fails\<close>

lemma process_loop_append:
  "process_loop db (xs @ ys) st w =
     (case process_loop db xs st w of
        (Inl e, w1) \<Rightarrow> (Inl e, w1)
      | (Inr st1, w1) \<Rightarrow> process_loop db ys st1 w1)"
proof (induction xs arbitrary: st w)
  case Nil
  then show ?case by simp
next
  case (Cons x xs)
  show ?case
  proof (cases rule: selection_cases[of db x])
    case (unresolved e)
    then show ?thesis by (simp add: process_loop_step_unresolved)
  next
    case dropped
    with Cons.IH show ?thesis by (simp add: process_loop_step_drop)
  next
    case (unfetched s others e)
    then show ?thesis by (simp add: process_loop_step_unfetched)
  next
    case (kept s others rows)
    with Cons.IH show ?thesis by (simp add: process_loop_step_keep)
  qed
qed

lemma process_loop_first_failure:
  assumes "list_all (answered db) before"
    and "resolution db sel = Inl e \<or>
         (\<exists>s others. resolution db sel = Inr (s # others) \<and> ppi_adjusted_2020 db s = Inl e)"
  shows "fst (process_loop db (before @ sel # after) st w) = Inl e"
proof -
  have "fst (process_loop db (sel # after) st1 w1) = Inl e" for st1 w1
    using assms(2)
    by (auto simp: process_loop_step_unresolved process_loop_step_unfetched)
  then show ?thesis
    by (simp add: process_loop_append process_loop_answered[OF assms(1)])
qed

text \<open>
  C9, as the code has it. A call of the repository that raises is not turned into an empty
  resolution: \<^verbatim>\<open>process_data\<close> has no handler, so when the calls for the selections before
  a selection return and the resolution of that selection raises, or the fetch of its first
  identifier raises, \<^verbatim>\<open>process_data\<close> raises that same error and returns no outputs.
\<close>

theorem repository_failure_propagates:
  assumes "list_all (answered db) before"
    and "resolution db sel = Inl e \<or>
         (\<exists>s others. resolution db sel = Inr (s # others) \<and> ppi_adjusted_2020 db s = Inl e)"
  shows "fst (process_data db (before @ sel # after) w) = Inl e"
proof -
  let ?st0 = "\<lparr>individual_indexes = [], index_categories = [], index_ids = [],
              weighted_dataframes = []\<rparr>"
  obtain r w1 where p: "process_loop db (before @ sel # after) ?st0 w = (r, w1)"
    by (cases "process_loop db (before @ sel # after) ?st0 w")
  with process_loop_first_failure[OF assms, of after ?st0 w] have "r = Inl e" by simp
  with p show ?thesis by (simp add: process_data_via_loop)
qed

theorem repository_failure_propagates_witness:
  "list_all (answered outage_db) [(''Energy'', Some ''Oil'', 40)] \<and>
   resolution outage_db (''Metals'', Some ''Steel'', 60) = Inl (DatabaseError ''connection lost'') \<and>
   fst (process_data outage_db ([(''Energy'', Some ''Oil'', 40)] @ (''Metals'', Some ''Steel'', 60) # [])
          fresh_world) = Inl (DatabaseError ''connection lost'')"
proof -
  have h1: "list_all (answered outage_db) [(''Energy'', Some ''Oil'', 40)]"
    by (simp add: answered_def resolution_def outage_db_def truthy_def)
  have h2: "resolution outage_db (''Metals'', Some ''Steel'', 60) = Inl (DatabaseError ''connection lost'')"
    by (simp add: resolution_def outage_db_def truthy_def)
  from h2 have h2': "resolution outage_db (''Metals'', Some ''Steel'', 60) = Inl (DatabaseError ''connection lost'') \<or>
         (\<exists>s others. resolution outage_db (''Metals'', Some ''Steel'', 60) = Inr (s # others) \<and>
            ppi_adjusted_2020 outage_db s = Inl (DatabaseError ''connection lost''))" ..
  from repository_failure_propagates[OF h1 h2', of "[]" fresh_world] h1 h2
  show ?thesis by (intro conjI)
qed

text \<open>
  C9, as the claim states it, fails: with the resolution of the steel selection raising,
  \<^verbatim>\<open>process_data\<close> raises, whereas dropping that selection and continuing would return
  the outputs of the oil selection alone.
\<close>

theorem failed_resolution_not_dropped:
  "resolution outage_db (''Metals'', Some ''Steel'', 60) = Inl (DatabaseError ''connection lost'') \<and>
   fst (process_data outage_db [(''Metals'', Some ''Steel'', 60), (''Energy'', Some ''Oil'', 40)] fresh_world)
     = Inl (DatabaseError ''connection lost'') \<and>
   fst (process_data outage_db [(''Energy'', Some ''Oil'', 40)] fresh_world)
     = Inr (Frame 2, [1], [''Oil''], [''WPU0561''])"
  by (simp add: process_data_def process_loop.simps(2) outage_db_def resolution_def
      fresh_world_def fetch_series_data_def fetch_timeseries_data_def truthy_def Let_def
      set_observation_date_def set_adjusted_index_value_def new_frame_def to_datetime_def
      observation_date_def adjusted_index_value_def sort_values_def groupby_sum_def aggregate_def
      format_str_def)

section \<open>The order of the weighted series\<close>






section \<open>The display window\<close>


lemma series_max_Nil_iff: "series_max ds = None \<longleftrightarrow> ds = []"
  by (cases ds) simp_all

text \<open>Five calendar years before a date of the calendar: the same month and day, except that
  29 February becomes 28 February.\<close>

lemma minus_five_years:
  assumes "1 \<le> d" and "d \<le> days_in_month yr m"
  shows "minus_years (yr, m, d) 5 = (yr - 5, m, if m = 2 \<and> d = 29 then 28 else d)"
proof -
  have "\<not> is_leap (yr - 5)" if "is_leap yr"
    using that unfolding is_leap_def by presburger
  with assms show ?thesis
    by (auto simp: days_in_month_def split: if_splits)
qed








end
